theory Spec2Isabelle
  imports Complex_Main "HOL-Library.Word"
begin

unbundle bit_operations_syntax

section \<open>Report decoder (controller/data\_parser.py)\<close>

text \<open>
  A report is a sequence of bytes. Indexing past the end raises IndexError in the source,
  and \<open>struct.unpack('<h', ...)\<close> of a slice that is not exactly two bytes long raises
  struct.error; both are values of the model.
\<close>

type_synonym byte = "8 word"

datatype py_error = IndexError | StructError

definition bind_res :: "py_error + 'a \<Rightarrow> ('a \<Rightarrow> py_error + 'b) \<Rightarrow> py_error + 'b" where
  "bind_res m f = (case m of Inl e \<Rightarrow> Inl e | Inr v \<Rightarrow> f v)"

definition byte_at :: "byte list \<Rightarrow> nat \<Rightarrow> py_error + byte" where
  "byte_at report i = (if i < length report then Inr (report ! i) else Inl IndexError)"

text \<open>The slice \<open>report[i:j]\<close>: it is cut short at the end of the report and never raises.\<close>

definition py_slice :: "byte list \<Rightarrow> nat \<Rightarrow> nat \<Rightarrow> byte list" where
  "py_slice report i j = take (j - i) (drop i report)"

text \<open>\<open>struct.unpack('<h', bs)[0]\<close>: a little-endian signed 16-bit integer.\<close>

definition unpack_h :: "byte list \<Rightarrow> py_error + int" where
  "unpack_h bs =
     (case bs of
        [lo, hi] \<Rightarrow>
          (let v = int (unat lo) + 256 * int (unat hi)
           in Inr (if v < 32768 then v else v - 65536))
      | _ \<Rightarrow> Inl StructError)"

record stick =
  stick_x :: real
  stick_y :: real
  raw_x :: nat
  raw_y :: nat

record trigger =
  trigger_value :: real
  raw :: nat

record vec3 =
  vx :: int
  vy :: int
  vz :: int

record touch =
  active :: bool
  touch_id :: nat
  touch_x :: int
  touch_y :: int

record snapshot =
  left_stick :: stick
  right_stick :: stick
  l2 :: trigger
  r2 :: trigger
  buttons :: "(string \<times> bool) list"
  dpad :: string
  dpad_raw :: nat
  ps_button :: bool
  touchpad_pressed :: bool
  gyro :: vec3
  accelerometer :: vec3
  touchpad :: touch
  battery :: nat

text \<open>\<open>DPAD_STATES.get(dpad, 'none')\<close>.\<close>

definition DPAD_STATES :: "(nat \<times> string) list" where
  "DPAD_STATES =
     [(8, ''none''), (0, ''up''), (1, ''ne''), (2, ''right''), (3, ''se''),
      (4, ''down''), (5, ''sw''), (6, ''left''), (7, ''nw'')]"

definition dpad_state :: "nat \<Rightarrow> string" where
  "dpad_state d = (case map_of DPAD_STATES d of Some s \<Rightarrow> s | None \<Rightarrow> ''none'')"

text \<open>\<open>bool(b & m)\<close> on a byte.\<close>

definition flag :: "byte \<Rightarrow> byte \<Rightarrow> bool" where
  "flag b m = (b AND m \<noteq> 0)"

definition mk_stick :: "byte \<Rightarrow> byte \<Rightarrow> stick" where
  "mk_stick bx by =
     \<lparr>stick_x = (real (unat bx) - 128) / 128, stick_y = (real (unat by) - 128) / 128,
      raw_x = unat bx, raw_y = unat by\<rparr>"

definition mk_trigger :: "byte \<Rightarrow> trigger" where
  "mk_trigger b = \<lparr>trigger_value = real (unat b) / 255, raw = unat b\<rparr>"

definition mk_buttons :: "byte \<Rightarrow> byte \<Rightarrow> (string \<times> bool) list" where
  "mk_buttons button_byte1 button_byte2 =
     [(''square'', flag button_byte1 0x10),
      (''cross'', flag button_byte1 0x20),
      (''circle'', flag button_byte1 0x40),
      (''triangle'', flag button_byte1 0x80),
      (''l1'', flag button_byte2 0x01),
      (''r1'', flag button_byte2 0x02),
      (''l2_pressed'', flag button_byte2 0x04),
      (''r2_pressed'', flag button_byte2 0x08),
      (''share'', flag button_byte2 0x10),
      (''options'', flag button_byte2 0x20),
      (''l3'', flag button_byte2 0x40),
      (''r3'', flag button_byte2 0x80)]"

text \<open>The three little-endian words of a motion sensor, starting at byte \<open>i\<close>.\<close>

definition unpack_vec3 :: "byte list \<Rightarrow> nat \<Rightarrow> py_error + vec3" where
  "unpack_vec3 report i =
     bind_res (unpack_h (py_slice report i (i + 2))) (\<lambda>a.
     bind_res (unpack_h (py_slice report (i + 2) (i + 4))) (\<lambda>b.
     bind_res (unpack_h (py_slice report (i + 4) (i + 6))) (\<lambda>c.
     Inr \<lparr>vx = a, vy = b, vz = c\<rparr>)))"

text \<open>The touchpad branch: taken when \<open>len(report) > 35\<close>, zeroed otherwise.\<close>

definition parse_touchpad :: "byte list \<Rightarrow> py_error + touch" where
  "parse_touchpad report =
     (if length report > 35 then
        bind_res (byte_at report 35) (\<lambda>b.
        bind_res (unpack_h (py_slice report 36 38)) (\<lambda>tx.
        bind_res (unpack_h (py_slice report 38 40)) (\<lambda>ty.
        Inr \<lparr>active = flag b 0x80, touch_id = unat (b AND 0x7F), touch_x = tx, touch_y = ty\<rparr>)))
      else Inr \<lparr>active = False, touch_id = 0, touch_x = 0, touch_y = 0\<rparr>)"

definition parse_battery :: "byte list \<Rightarrow> py_error + nat" where
  "parse_battery report =
     (if length report > 30 then
        bind_res (byte_at report 30) (\<lambda>b. Inr (unat (b AND 0x0F)))
      else Inr 0)"

text \<open>\<open>DS4DataParser.parse_controller_data\<close>, reading the report in the source's order.\<close>

definition parse_controller_data :: "byte list \<Rightarrow> py_error + snapshot" where
  "parse_controller_data report =
     bind_res (byte_at report 1) (\<lambda>b1.
     bind_res (byte_at report 2) (\<lambda>b2.
     bind_res (byte_at report 3) (\<lambda>b3.
     bind_res (byte_at report 4) (\<lambda>b4.
     bind_res (byte_at report 8) (\<lambda>b8.
     bind_res (byte_at report 9) (\<lambda>b9.
     bind_res (byte_at report 5) (\<lambda>button_byte1.
     bind_res (byte_at report 6) (\<lambda>button_byte2.
     bind_res (byte_at report 7) (\<lambda>b7.
     bind_res (unpack_vec3 report 13) (\<lambda>g.
     bind_res (unpack_vec3 report 19) (\<lambda>a.
     bind_res (parse_touchpad report) (\<lambda>t.
     bind_res (parse_battery report) (\<lambda>bat.
     Inr \<lparr>left_stick = mk_stick b1 b2,
          right_stick = mk_stick b3 b4,
          l2 = mk_trigger b8,
          r2 = mk_trigger b9,
          buttons = mk_buttons button_byte1 button_byte2,
          dpad = dpad_state (unat (button_byte1 AND 0x0F)),
          dpad_raw = unat (button_byte1 AND 0x0F),
          ps_button = flag b7 0x01,
          touchpad_pressed = flag b7 0x02,
          gyro = g,
          accelerometer = a,
          touchpad = t,
          battery = bat\<rparr>)))))))))))))"

definition validate_report :: "byte list \<Rightarrow> bool" where
  "validate_report report = (if length report < 25 then False else True)"

section \<open>Edge detector (controller/data\_parser.py)\<close>

record digital_state =
  ds_buttons :: "(string \<times> bool) list"
  ds_dpad :: string

record changes =
  ch_buttons :: "(string \<times> bool) list"
  ch_dpad :: "string option"

text \<open>\<open>DS4DataParser.__init__\<close> and \<open>reset_digital_state\<close> store the same value.\<close>

definition init_digital_state :: digital_state where
  "init_digital_state = \<lparr>ds_buttons = [], ds_dpad = ''none''\<rparr>"

definition reset_digital_state :: "digital_state \<Rightarrow> digital_state" where
  "reset_digital_state s = \<lparr>ds_buttons = [], ds_dpad = ''none''\<rparr>"

text \<open>\<open>previous_digital_state['buttons'].get(button, False)\<close>.\<close>

definition was_pressed :: "digital_state \<Rightarrow> string \<Rightarrow> bool" where
  "was_pressed prev button = (case map_of (ds_buttons prev) button of Some v \<Rightarrow> v | None \<Rightarrow> False)"

text \<open>The loop over \<open>new_data['buttons'].items()\<close>, collecting \<open>changes['buttons']\<close>.\<close>

fun button_presses :: "digital_state \<Rightarrow> (string \<times> bool) list \<Rightarrow> (string \<times> bool) list" where
  "button_presses prev [] = []"
| "button_presses prev ((button, is_pressed) # rest) =
     (if is_pressed \<and> \<not> was_pressed prev button
      then (button, True) # button_presses prev rest
      else button_presses prev rest)"

definition check_digital_changes ::
  "digital_state \<Rightarrow> snapshot \<Rightarrow> changes option \<times> digital_state" where
  "check_digital_changes prev new_data =
     (let pressed = button_presses prev (buttons new_data);
          current_dpad = dpad new_data;
          previous_dpad = ds_dpad prev;
          dpad_changed = (current_dpad \<noteq> ''none'' \<and> current_dpad \<noteq> previous_dpad);
          has_changes = (pressed \<noteq> [] \<or> dpad_changed);
          chg = \<lparr>ch_buttons = pressed,
                 ch_dpad = (if dpad_changed then Some current_dpad else None)\<rparr>;
          new_state = \<lparr>ds_buttons = buttons new_data, ds_dpad = dpad new_data\<rparr>
      in (if has_changes then Some chg else None, new_state))"

text \<open>A press for button \<open>b\<close> is in the detector's output: \<open>changes['buttons'].get(b)\<close> is true.\<close>

definition emits_press :: "changes option \<Rightarrow> string \<Rightarrow> bool" where
  "emits_press out b = (case out of None \<Rightarrow> False | Some c \<Rightarrow> map_of (ch_buttons c) b = Some True)"

fun run_detector :: "digital_state \<Rightarrow> snapshot list \<Rightarrow> changes option list" where
  "run_detector s [] = []"
| "run_detector s (d # ds) =
     (case check_digital_changes s d of (out, s') \<Rightarrow> out # run_detector s' ds)"

text \<open>
  The application state that edge detection can see (gui/main\_window.py): the profile
  selected in the mapping frame and the parser's single stored state. Selecting a profile
  (\<open>on_profile_listbox_select\<close>) assigns the name only; \<open>poll_controller\<close> calls
  \<open>self.data_parser.check_digital_changes(controller_data)\<close> without it.
\<close>

record app =
  active_profile_name :: string
  previous_digital_state :: digital_state

definition on_profile_listbox_select :: "string \<Rightarrow> app \<Rightarrow> app" where
  "on_profile_listbox_select name a = a\<lparr>active_profile_name := name\<rparr>"

definition poll_digital :: "app \<Rightarrow> snapshot \<Rightarrow> changes option \<times> app" where
  "poll_digital a controller_data =
     (case check_digital_changes (previous_digital_state a) controller_data of
        (digital_changes, s') \<Rightarrow> (digital_changes, a\<lparr>previous_digital_state := s'\<rparr>))"

text \<open>
  Two 64-byte reports with every byte zero but byte 5: the d-pad nibble at rest (8), and the
  cross button (0x20) up or down.
\<close>

definition report_idle :: "byte list" where
  "report_idle = replicate 5 0 @ [0x08] @ replicate 58 0"

definition report_cross :: "byte list" where
  "report_cross = replicate 5 0 @ [0x28] @ replicate 58 0"

text \<open>The report of the cross button with the d-pad nibble 0 (up).\<close>

definition report_cross_up :: "byte list" where
  "report_cross_up = replicate 5 0 @ [0x20] @ replicate 58 0"

definition decoded :: "byte list \<Rightarrow> snapshot" where
  "decoded report = projr (parse_controller_data report)"

section \<open>Haptic threshold detector (gui/tabs/rumble\_tab.py, gui/main\_window.py)\<close>

text \<open>
  The fields of \<open>RumbleTab\<close> that the detector reads and writes. The last field records
  whether the key \<open>'trigger_tactile_feedback'\<close> is in \<open>rumble_callbacks\<close>; the main
  window registers it.
\<close>

record rumble_tab =
  tactile_enabled :: bool
  threshold1_enabled :: bool
  threshold1_value :: int
  threshold2_enabled :: bool
  threshold2_value :: int
  threshold3_enabled :: bool
  threshold3_value :: int
  tactile_duration :: int
  tactile_intensity :: int
  prev_l2_value :: int
  prev_r2_value :: int
  l2_last_rumble_threshold :: "nat option"
  r2_last_rumble_threshold :: "nat option"
  hysteresis_margin :: int
  has_trigger_callback :: bool

text \<open>\<open>RumbleTab.__init__\<close>, with the callback registered as the main window does.\<close>

definition init_rumble_tab :: rumble_tab where
  "init_rumble_tab =
     \<lparr>tactile_enabled = False,
      threshold1_enabled = True, threshold1_value = 64,
      threshold2_enabled = True, threshold2_value = 128,
      threshold3_enabled = True, threshold3_value = 192,
      tactile_duration = 50, tactile_intensity = 255,
      prev_l2_value = 0, prev_r2_value = 0,
      l2_last_rumble_threshold = None, r2_last_rumble_threshold = None,
      hysteresis_margin = 2,
      has_trigger_callback = True\<rparr>"

definition enabled_thresholds :: "rumble_tab \<Rightarrow> (nat \<times> int) list" where
  "enabled_thresholds tab =
     (if threshold1_enabled tab then [(1, threshold1_value tab)] else []) @
     (if threshold2_enabled tab then [(2, threshold2_value tab)] else []) @
     (if threshold3_enabled tab then [(3, threshold3_value tab)] else [])"

text \<open>
  \<open>self.l2_last_rumble_threshold if trigger == 'l2' else self.r2_last_rumble_threshold\<close>,
  and the assignment to the same field.
\<close>

definition last_rumble_threshold :: "rumble_tab \<Rightarrow> string \<Rightarrow> nat option" where
  "last_rumble_threshold tab trigger =
     (if trigger = ''l2'' then l2_last_rumble_threshold tab else r2_last_rumble_threshold tab)"

definition set_last_rumble_threshold :: "string \<Rightarrow> nat option \<Rightarrow> rumble_tab \<Rightarrow> rumble_tab" where
  "set_last_rumble_threshold trigger v tab =
     (if trigger = ''l2'' then tab\<lparr>l2_last_rumble_threshold := v\<rparr>
      else tab\<lparr>r2_last_rumble_threshold := v\<rparr>)"

text \<open>
  The main window's side. \<open>set_rumble_simple(left_rumble, right_rumble)\<close> builds the output
  report with the left (strong) value at byte 4 and the right (weak) value at byte 5 and
  writes \<open>bytes(report)\<close> to the device; the timer call is the second effect.
\<close>

datatype ui_effect = HidWrite "int list" | After int

definition set_rumble_simple :: "int \<Rightarrow> int \<Rightarrow> ui_effect" where
  "set_rumble_simple left_rumble right_rumble =
     HidWrite ([0x05, 0xFF, 0x04, 0x00, left_rumble, right_rumble, 0, 0, 0] @ replicate 23 0)"

text \<open>
  \<open>bytes(report)\<close> raises ValueError when a value of the report is outside 0..255. The
  model keeps the report as the effect and checks the conversion where the write is made.
\<close>

datatype callback_error = ValueError

definition bytes_ok :: "ui_effect \<Rightarrow> bool" where
  "bytes_ok e = (case e of HidWrite report \<Rightarrow> list_all (\<lambda>v. 0 \<le> v \<and> v \<le> 255) report
                 | After ms \<Rightarrow> True)"

text \<open>
  \<open>DS4ControlUI.trigger_tactile_feedback\<close>: the settings are read from the rumble tab, the
  motor is chosen by comparing the trigger's name with \<open>"L2"\<close>, and the stop is scheduled
  after the configured duration. When the write raises, the timer is not set.
\<close>

definition trigger_tactile_feedback :: "rumble_tab \<Rightarrow> string \<Rightarrow> callback_error + ui_effect list" where
  "trigger_tactile_feedback tab trigger =
     (let w = (if trigger = ''L2'' then set_rumble_simple (tactile_intensity tab) 0
               else set_rumble_simple 0 (tactile_intensity tab))
      in if bytes_ok w then Inr [w, After (tactile_duration tab)] else Inl ValueError)"

text \<open>
  \<open>RumbleTab._check_threshold_crossing\<close>: the loop over the enabled thresholds.
  \<open>_trigger_tactile_feedback\<close> calls the registered callback, which is the main window's
  \<open>trigger_tactile_feedback\<close>, with the trigger's name; the model collects the names
  passed to it. An exception of the callback leaves the loop at once, before the
  threshold is recorded. The result is the state left behind, the exception if one was
  raised, and the names passed to the callback.
\<close>

fun threshold_loop ::
  "string \<Rightarrow> int \<Rightarrow> int \<Rightarrow> (nat \<times> int) list \<Rightarrow> rumble_tab \<Rightarrow> string list
   \<Rightarrow> (rumble_tab \<times> callback_error option) \<times> string list" where
  "threshold_loop trigger current_value prev_value [] tab calls = ((tab, None), calls)"
| "threshold_loop trigger current_value prev_value ((threshold_num, threshold_value) # rest) tab calls =
     (if prev_value < threshold_value \<and> threshold_value \<le> current_value then
        (if last_rumble_threshold tab trigger \<noteq> Some threshold_num then
           (if has_trigger_callback tab then
              (case trigger_tactile_feedback tab trigger of
                 Inl e \<Rightarrow> ((tab, Some e), calls @ [trigger])
               | Inr effects \<Rightarrow>
                   threshold_loop trigger current_value prev_value rest
                     (set_last_rumble_threshold trigger (Some threshold_num) tab)
                     (calls @ [trigger]))
            else
              threshold_loop trigger current_value prev_value rest
                (set_last_rumble_threshold trigger (Some threshold_num) tab) calls)
         else threshold_loop trigger current_value prev_value rest tab calls)
      else if current_value < threshold_value \<and> threshold_value \<le> prev_value then
        threshold_loop trigger current_value prev_value rest
          (set_last_rumble_threshold trigger None tab) calls
      else threshold_loop trigger current_value prev_value rest tab calls)"

definition check_threshold_crossing ::
  "rumble_tab \<Rightarrow> string \<Rightarrow> int \<Rightarrow> int \<Rightarrow> (rumble_tab \<times> callback_error option) \<times> string list" where
  "check_threshold_crossing tab trigger current_value prev_value =
     threshold_loop trigger current_value prev_value (enabled_thresholds tab) tab []"

text \<open>
  \<open>RumbleTab.check_tactile_feedback\<close>: L2 first, then R2. An exception leaves the method
  before the previous value is stored.
\<close>

definition check_tactile_feedback ::
  "rumble_tab \<Rightarrow> int \<Rightarrow> int \<Rightarrow> (rumble_tab \<times> callback_error option) \<times> string list" where
  "check_tactile_feedback tab l2_value r2_value =
     (if \<not> tactile_enabled tab then ((tab, None), [])
      else
        case check_threshold_crossing tab ''l2'' l2_value (prev_l2_value tab) of
          ((tab1, Some e), calls1) \<Rightarrow> ((tab1, Some e), calls1)
        | ((tab1, None), calls1) \<Rightarrow>
            let tab2 = tab1\<lparr>prev_l2_value := l2_value\<rparr> in
            case check_threshold_crossing tab2 ''r2'' r2_value (prev_r2_value tab2) of
              ((tab3, Some e), calls2) \<Rightarrow> ((tab3, Some e), calls1 @ calls2)
            | ((tab3, None), calls2) \<Rightarrow>
                ((tab3\<lparr>prev_r2_value := r2_value\<rparr>, None), calls1 @ calls2))"

text \<open>
  \<open>DS4ControlUI.update_visualizations\<close> calls \<open>check_tactile_feedback\<close> with the raw trigger
  bytes. The effects are those of the callback's calls that returned.
\<close>

definition tactile_effects ::
  "rumble_tab \<Rightarrow> int \<Rightarrow> int \<Rightarrow> (rumble_tab \<times> callback_error option) \<times> ui_effect list" where
  "tactile_effects tab l2_raw r2_raw =
     (case check_tactile_feedback tab l2_raw r2_raw of
        (res, calls) \<Rightarrow>
          (res, concat (map (\<lambda>trigger. case trigger_tactile_feedback tab trigger of
                                          Inl e \<Rightarrow> [] | Inr effects \<Rightarrow> effects) calls)))"

text \<open>The strong and the weak motor value of a written report.\<close>

definition strong_motor :: "ui_effect \<Rightarrow> int option" where
  "strong_motor e = (case e of HidWrite report \<Rightarrow> Some (report ! 4) | After ms \<Rightarrow> None)"

definition weak_motor :: "ui_effect \<Rightarrow> int option" where
  "weak_motor e = (case e of HidWrite report \<Rightarrow> Some (report ! 5) | After ms \<Rightarrow> None)"

text \<open>The thresholds of a list that the step from \<open>prev\<close> to \<open>cur\<close> crosses upwards.\<close>

definition crossed_upward :: "int \<Rightarrow> int \<Rightarrow> (nat \<times> int) list \<Rightarrow> (nat \<times> int) list" where
  "crossed_upward prev cur ths = filter (\<lambda>th. prev < snd th \<and> snd th \<le> cur) ths"

section \<open>Orientation estimator (gui/tabs/visualization\_tab.py)\<close>

text \<open>
  The orientation, its offset, the axis locks and the filter parameters of
  \<open>VisualizationTab\<close>. The source computes in double-precision floats; the model reads the
  finite floats as real numbers and leaves rounding out.
\<close>

record viz_tab =
  roll :: real
  pitch :: real
  yaw :: real
  offset_roll :: real
  offset_pitch :: real
  offset_yaw :: real
  last_time :: real
  lock_roll :: bool
  lock_pitch :: bool
  lock_yaw :: bool
  alpha :: real
  gyro_sensitivity :: real
  damping_factor :: real

text \<open>\<open>VisualizationTab.__init__\<close>, constructed at clock time \<open>now\<close>.\<close>

definition init_viz_tab :: "real \<Rightarrow> viz_tab" where
  "init_viz_tab now =
     \<lparr>roll = 0, pitch = 0, yaw = 0,
      offset_roll = 0, offset_pitch = 0, offset_yaw = 0,
      last_time = now,
      lock_roll = False, lock_pitch = False, lock_yaw = False,
      alpha = 0.95, gyro_sensitivity = 500, damping_factor = 0.95\<rparr>"

text \<open>\<open>np.arctan2(y, x)\<close> and \<open>np.radians\<close> on real numbers.\<close>

definition arctan2 :: "real \<Rightarrow> real \<Rightarrow> real" where
  "arctan2 y x =
     (if x > 0 then arctan (y / x)
      else if x < 0 then (if y \<ge> 0 then arctan (y / x) + pi else arctan (y / x) - pi)
      else if y > 0 then pi / 2
      else if y < 0 then - (pi / 2)
      else 0)"

definition radians :: "real \<Rightarrow> real" where
  "radians x = x * pi / 180"

datatype div_error = ZeroDivisionError

text \<open>
  \<open>update_orientation_with_fusion\<close> at clock time \<open>current_time\<close>. The sensor values are
  the decoder's integers. Dividing by a zero sensitivity raises after \<open>last_time\<close> has
  been stored and before the orientation is touched.
\<close>

definition update_orientation_with_fusion ::
  "viz_tab \<Rightarrow> real \<Rightarrow> int \<Rightarrow> int \<Rightarrow> int \<Rightarrow> int \<Rightarrow> int \<Rightarrow> int \<Rightarrow> div_error option \<times> viz_tab" where
  "update_orientation_with_fusion tab current_time gyro_x gyro_y gyro_z accel_x accel_y accel_z =
     (let dt = current_time - last_time tab;
          tab0 = tab\<lparr>last_time := current_time\<rparr>;
          a = alpha tab0;
          accel_roll = arctan2 (real_of_int accel_y) (real_of_int accel_z);
          accel_pitch = arctan2 (real_of_int (- accel_x))
                          (sqrt (real_of_int (accel_y ^ 2 + accel_z ^ 2)))
      in if gyro_sensitivity tab0 = 0 then (Some ZeroDivisionError, tab0)
         else
           let gyro_roll_rate = radians (real_of_int gyro_x / gyro_sensitivity tab0);
               gyro_pitch_rate = radians (real_of_int gyro_z / gyro_sensitivity tab0);
               gyro_yaw_rate = radians (real_of_int gyro_y / gyro_sensitivity tab0);
               tab1 = (if \<not> lock_roll tab0
                       then tab0\<lparr>roll := a * (roll tab0 + gyro_roll_rate * dt) + (1 - a) * accel_roll\<rparr>
                       else tab0);
               tab2 = (if \<not> lock_pitch tab1
                       then tab1\<lparr>pitch := a * (pitch tab1 + gyro_pitch_rate * dt) + (1 - a) * accel_pitch\<rparr>
                       else tab1);
               tab3 = (if \<not> lock_yaw tab2
                       then tab2\<lparr>yaw := yaw tab2 + gyro_yaw_rate * dt\<rparr>
                       else tab2);
               damping = damping_factor tab3;
               tab4 = (if \<bar>gyro_roll_rate\<bar> < 0.01 \<and> \<not> lock_roll tab3
                       then tab3\<lparr>roll := roll tab3 * damping\<rparr>
                       else tab3);
               tab5 = (if \<bar>gyro_pitch_rate\<bar> < 0.01 \<and> \<not> lock_pitch tab4
                       then tab4\<lparr>pitch := pitch tab4 * damping\<rparr>
                       else tab4)
           in (None, tab5))"

text \<open>
  \<open>update_gyro_triangle\<close> draws the orientation it is given minus the stored offset; the
  model keeps the three displayed angles and leaves the drawing out.
\<close>

definition update_gyro_triangle :: "viz_tab \<Rightarrow> real \<Rightarrow> real \<Rightarrow> real \<Rightarrow> real \<times> real \<times> real" where
  "update_gyro_triangle tab r p y = (r - offset_roll tab, p - offset_pitch tab, y - offset_yaw tab)"

text \<open>
  \<open>_set_neutral_orientation\<close>: store the current angles as the offset, then redraw. The
  result is the new state and the displayed angles.
\<close>

definition set_neutral_orientation :: "viz_tab \<Rightarrow> viz_tab \<times> (real \<times> real \<times> real)" where
  "set_neutral_orientation tab =
     (let tab' = tab\<lparr>offset_roll := roll tab, offset_pitch := pitch tab, offset_yaw := yaw tab\<rparr>
      in (tab', update_gyro_triangle tab' (roll tab') (pitch tab') (yaw tab')))"

section \<open>Inbound command channel (network/udp\_manager.py)\<close>

text \<open>
  What \<open>recvfrom\<close> on the non-blocking socket gives, the values \<open>json.loads\<close> returns, the
  exceptions raised inside \<open>check_ipc_socket\<close>, and the callbacks it invokes.
\<close>

datatype recv_result = NoData | SocketFailure | Datagram "byte list"

datatype json =
  JNull | JBool bool | JInt int | JReal real | JStr string | JArr "json list"
  | JObj "(string \<times> json) list"

datatype ipc_exn = BlockingIOError | OSError | UnicodeDecodeError | AttributeError

datatype ipc_action = ToggleWindow | SetLightbar json json json

text \<open>Whether the two callbacks of \<open>UDPManager\<close> have been set (they start as None).\<close>

record udp_manager =
  toggle_window_callback :: bool
  lightbar_callback :: bool

text \<open>\<open>command_data.get(key, default)\<close> on a decoded JSON object.\<close>

definition dict_get :: "(string \<times> json) list \<Rightarrow> string \<Rightarrow> json \<Rightarrow> json" where
  "dict_get kvs key dflt = (case map_of kvs key of Some v \<Rightarrow> v | None \<Rightarrow> dflt)"

text \<open>
  The body of the outer \<open>try\<close>. The two library calls are parameters: \<open>decode\<close> is
  \<open>data.decode('utf-8')\<close> (None for UnicodeDecodeError) and \<open>loads\<close> is \<open>json.loads\<close> (None
  for JSONDecodeError, which the inner handler catches). Calling \<open>.get\<close> on a JSON value
  that is not an object raises AttributeError.
\<close>

definition ipc_body ::
  "(byte list \<Rightarrow> string option) \<Rightarrow> (string \<Rightarrow> json option) \<Rightarrow> udp_manager \<Rightarrow> recv_result
   \<Rightarrow> ipc_exn + ipc_action list" where
  "ipc_body decode loads m rcv =
     (case rcv of
        NoData \<Rightarrow> Inl BlockingIOError
      | SocketFailure \<Rightarrow> Inl OSError
      | Datagram data \<Rightarrow>
          (case decode data of
             None \<Rightarrow> Inl UnicodeDecodeError
           | Some message \<Rightarrow>
               (case loads message of
                  None \<Rightarrow>
                    Inr (if message = ''toggle_window'' \<and> toggle_window_callback m
                         then [ToggleWindow] else [])
                | Some (JObj command_data) \<Rightarrow>
                    Inr (if map_of command_data ''command'' = Some (JStr ''set_lightbar'')
                            \<and> lightbar_callback m
                         then [SetLightbar (dict_get command_data ''r'' (JInt 0))
                                 (dict_get command_data ''g'' (JInt 0))
                                 (dict_get command_data ''b'' (JInt 0))]
                         else [])
                | Some _ \<Rightarrow> Inl AttributeError)))"

text \<open>
  \<open>check_ipc_socket\<close>: BlockingIOError is passed over, any other exception is printed.
  The result is \<open>Inl\<close> for an exception that leaves the method, else the callbacks invoked
  and the exception printed, if any.
\<close>

definition check_ipc_socket ::
  "(byte list \<Rightarrow> string option) \<Rightarrow> (string \<Rightarrow> json option) \<Rightarrow> udp_manager \<Rightarrow> recv_result
   \<Rightarrow> ipc_exn + (ipc_action list \<times> ipc_exn option)" where
  "check_ipc_socket decode loads m rcv =
     (case ipc_body decode loads m rcv of
        Inl BlockingIOError \<Rightarrow> Inr ([], None)
      | Inl e \<Rightarrow> Inr ([], Some e)
      | Inr actions \<Rightarrow> Inr (actions, None))"

text \<open>
  Stand-ins for the two library calls on the datagrams of the examples: ASCII bytes decode
  to their characters, and the one JSON text parses to its object.
\<close>

definition ascii_decode :: "byte list \<Rightarrow> string option" where
  "ascii_decode data =
     (if list_all (\<lambda>b. unat b < 128) data then Some (map (\<lambda>b. char_of (unat b)) data) else None)"

definition ascii_encode :: "string \<Rightarrow> byte list" where
  "ascii_encode s = map (\<lambda>c. of_nat (of_char c)) s"

definition lightbar_text :: string where
  \<open>lightbar_text = ''{"command":"set_lightbar","r":255,"g":0,"b":10}''\<close>

definition example_loads :: "string \<Rightarrow> json option" where
  "example_loads s =
     (if s = lightbar_text
      then Some (JObj [(''command'', JStr ''set_lightbar''), (''r'', JInt 255), (''g'', JInt 0),
                       (''b'', JInt 10)])
      else None)"

text \<open>
  A 36-byte report of zeros, and a 64-byte report whose byte 35 has bit 7 set and the touch
  id bits clear.
\<close>

definition report_36 :: "byte list" where
  "report_36 = replicate 36 0"

definition report_touch_bit7 :: "byte list" where
  "report_touch_bit7 = replicate 35 0 @ [0x80] @ replicate 28 0"


section \<open>Properties of the edge detector\<close>

lemma map_of_button_presses:
  "distinct (map fst bs) \<Longrightarrow>
   map_of (button_presses prev bs) b =
     (if map_of bs b = Some True \<and> \<not> was_pressed prev b then Some True else None)"
proof (induction bs)
  case Nil
  then show ?case by simp
next
  case (Cons p bs)
  obtain k v where p: "p = (k, v)" by (cases p)
  from Cons.prems p have notin: "k \<notin> fst ` set bs" and d: "distinct (map fst bs)" by auto
  have nk: "map_of bs k = None" using notin by (simp add: map_of_eq_None_iff)
  show ?case
  proof (cases "b = k")
    case True
    then show ?thesis using p nk Cons.IH [OF d] by auto
  next
    case False
    then show ?thesis using p Cons.IH [OF d] by auto
  qed
qed

lemma button_presses_empty:
  assumes "distinct (map fst bs)"
  shows "(button_presses prev bs = []) = (\<forall>b. map_of bs b = Some True \<longrightarrow> was_pressed prev b)"
proof
  assume e: "button_presses prev bs = []"
  show "\<forall>b. map_of bs b = Some True \<longrightarrow> was_pressed prev b"
  proof (intro allI impI)
    fix b assume "map_of bs b = Some True"
    then show "was_pressed prev b"
      using map_of_button_presses [OF assms, of prev b] e by (auto split: if_splits)
  qed
next
  assume a: "\<forall>b. map_of bs b = Some True \<longrightarrow> was_pressed prev b"
  have "\<And>b. map_of (button_presses prev bs) b = None"
    using map_of_button_presses [OF assms, of prev] a by auto
  then have "map_of (button_presses prev bs) = Map.empty" by (intro ext)
  then show "button_presses prev bs = []" by (simp only: map_of_eq_empty_iff)
qed

lemma emits_press_check:
  assumes "distinct (map fst (buttons d))"
  shows "emits_press (fst (check_digital_changes prev d)) b =
         (map_of (buttons d) b = Some True \<and> \<not> was_pressed prev b)"
proof (cases "map_of (buttons d) b = Some True \<and> \<not> was_pressed prev b")
  case True
  then have m: "map_of (button_presses prev (buttons d)) b = Some True"
    using map_of_button_presses [OF assms, of prev b] by simp
  then have "button_presses prev (buttons d) \<noteq> []" by auto
  then show ?thesis using True m
    by (simp add: emits_press_def check_digital_changes_def Let_def)
next
  case False
  then have m: "map_of (button_presses prev (buttons d)) b = None"
    using map_of_button_presses [OF assms, of prev b] by auto
  then show ?thesis using False
    by (simp add: emits_press_def check_digital_changes_def Let_def)
qed

lemma check_state: "snd (check_digital_changes prev d) = \<lparr>ds_buttons = buttons d, ds_dpad = dpad d\<rparr>"
  by (simp add: check_digital_changes_def Let_def)

lemma run_detector_Cons:
  "run_detector s (d # ds) =
     fst (check_digital_changes s d) # run_detector \<lparr>ds_buttons = buttons d, ds_dpad = dpad d\<rparr> ds"
  using check_state [of s d] by (cases "check_digital_changes s d") simp

lemma was_pressed_stored:
  "was_pressed \<lparr>ds_buttons = buttons d, ds_dpad = x\<rparr> b = (map_of (buttons d) b = Some True)"
  by (auto simp add: was_pressed_def split: option.splits)

text \<open>
  C7. When a button reads false, true, true, false, true in five successive snapshots, the
  detector emits a press for it at the second and the fifth snapshot only, whatever state
  it started from. The detector returns None exactly when the snapshot has no rising edge
  (no button that is down now and was not down before, and a d-pad that is at rest or
  unchanged), it never returns an empty change-set, and it always stores the new
  snapshot's buttons and d-pad as the previous state.
\<close>

theorem edge_detector_sequence_and_sentinel:
  assumes dicts: "\<forall>x \<in> set [d0, d1, d2, d3, d4, d]. distinct (map fst (buttons x))"
    and vals: "map (\<lambda>x. map_of (buttons x) b) [d0, d1, d2, d3, d4] =
               [Some False, Some True, Some True, Some False, Some True]"
  shows "map (\<lambda>out. emits_press out b) (run_detector s [d0, d1, d2, d3, d4]) =
           [False, True, False, False, True]
       \<and> (fst (check_digital_changes prev d) = None) =
           ((\<forall>k. map_of (buttons d) k = Some True \<longrightarrow> was_pressed prev k)
            \<and> (dpad d = ''none'' \<or> dpad d = ds_dpad prev))
       \<and> fst (check_digital_changes prev d) \<noteq> Some \<lparr>ch_buttons = [], ch_dpad = None\<rparr>
       \<and> snd (check_digital_changes prev d) = \<lparr>ds_buttons = buttons d, ds_dpad = dpad d\<rparr>"
proof -
  from dicts have dd: "distinct (map fst (buttons d0))" "distinct (map fst (buttons d1))"
    "distinct (map fst (buttons d2))" "distinct (map fst (buttons d3))"
    "distinct (map fst (buttons d4))" "distinct (map fst (buttons d))" by simp_all
  from vals have v: "map_of (buttons d0) b = Some False" "map_of (buttons d1) b = Some True"
    "map_of (buttons d2) b = Some True" "map_of (buttons d3) b = Some False"
    "map_of (buttons d4) b = Some True" by simp_all
  have seq: "map (\<lambda>out. emits_press out b) (run_detector s [d0, d1, d2, d3, d4]) =
           [False, True, False, False, True]"
    by (simp del: run_detector.simps(2)
        add: run_detector_Cons emits_press_check dd was_pressed_stored v)
  have none: "(fst (check_digital_changes prev d) = None) =
           ((\<forall>k. map_of (buttons d) k = Some True \<longrightarrow> was_pressed prev k)
            \<and> (dpad d = ''none'' \<or> dpad d = ds_dpad prev))"
    using button_presses_empty [OF dd(6), of prev]
    by (auto simp add: check_digital_changes_def Let_def)
  have nonempty: "fst (check_digital_changes prev d) \<noteq> Some \<lparr>ch_buttons = [], ch_dpad = None\<rparr>"
    by (auto simp add: check_digital_changes_def Let_def)
  show ?thesis using seq none nonempty check_state [of prev d] by blast
qed

theorem edge_detector_sequence_and_sentinel_witness:
  "map (\<lambda>out. emits_press out ''cross'')
     (run_detector init_digital_state
        [decoded report_idle, decoded report_cross, decoded report_cross,
         decoded report_idle, decoded report_cross]) = [False, True, False, False, True]
   \<and> fst (check_digital_changes init_digital_state (decoded report_idle)) = None
   \<and> snd (check_digital_changes init_digital_state (decoded report_idle)) =
       \<lparr>ds_buttons = buttons (decoded report_idle), ds_dpad = ''none''\<rparr>"
proof -
  have h1: "\<forall>x \<in> set [decoded report_idle, decoded report_cross, decoded report_cross,
              decoded report_idle, decoded report_cross, decoded report_idle].
              distinct (map fst (buttons x))"
    by code_simp
  have h2: "map (\<lambda>x. map_of (buttons x) ''cross'')
              [decoded report_idle, decoded report_cross, decoded report_cross,
               decoded report_idle, decoded report_cross] =
            [Some False, Some True, Some True, Some False, Some True]"
    by code_simp
  have "buttons (decoded report_idle) = mk_buttons 0x08 0"
    by code_simp
  then have h3: "\<forall>k. map_of (buttons (decoded report_idle)) k = Some True \<longrightarrow>
              was_pressed init_digital_state k"
    by (simp add: mk_buttons_def flag_def)
  have h4: "dpad (decoded report_idle) = ''none''"
    by code_simp
  show ?thesis
    using edge_detector_sequence_and_sentinel [OF h1 h2, of init_digital_state init_digital_state]
      h3 h4
    by simp
qed

text \<open>
  C10. On the first snapshot after construction or after \<open>reset_digital_state\<close>, every
  button that is down is reported as a press, and a d-pad direction other than none is
  reported as the d-pad press.
\<close>

theorem first_snapshot_reports_held_inputs:
  assumes "distinct (map fst (buttons d))"
    and "s = init_digital_state \<or> s = reset_digital_state s0"
  shows "(map_of (buttons d) b = Some True \<longrightarrow> emits_press (fst (check_digital_changes s d)) b)
       \<and> (dpad d \<noteq> ''none'' \<longrightarrow>
            (\<exists>c. fst (check_digital_changes s d) = Some c \<and> ch_dpad c = Some (dpad d)))"
proof -
  from assms(2) have s: "s = \<lparr>ds_buttons = [], ds_dpad = ''none''\<rparr>"
    by (auto simp add: init_digital_state_def reset_digital_state_def)
  have "\<not> was_pressed s b" by (simp add: s was_pressed_def)
  then have btn: "map_of (buttons d) b = Some True \<longrightarrow> emits_press (fst (check_digital_changes s d)) b"
    by (simp add: emits_press_check [OF assms(1)])
  have dp: "dpad d \<noteq> ''none'' \<longrightarrow>
            (\<exists>c. fst (check_digital_changes s d) = Some c \<and> ch_dpad c = Some (dpad d))"
    by (simp add: s check_digital_changes_def Let_def)
  show ?thesis using btn dp by blast
qed

theorem first_snapshot_reports_held_inputs_witness:
  "emits_press (fst (check_digital_changes init_digital_state (decoded report_cross_up))) ''cross''
   \<and> (\<exists>c. fst (check_digital_changes init_digital_state (decoded report_cross_up)) = Some c
          \<and> ch_dpad c = Some ''up'')"
proof -
  have h1: "distinct (map fst (buttons (decoded report_cross_up)))"
    by code_simp
  have h2: "init_digital_state = init_digital_state \<or> init_digital_state = reset_digital_state init_digital_state"
    by simp
  have h3: "map_of (buttons (decoded report_cross_up)) ''cross'' = Some True"
    by code_simp
  have h4: "dpad (decoded report_cross_up) = ''up''"
    by code_simp
  show ?thesis
    using first_snapshot_reports_held_inputs [OF h1 h2, of "''cross''"] h3 h4 by simp
qed

text \<open>
  C1, as the claim states it, fails: the cross button is pressed while profile A is
  selected, profile B is then selected, and the next snapshot with cross still down
  yields no change-set at all.
\<close>

theorem profile_isolation_counterexample:
  "emits_press
     (fst (poll_digital \<lparr>active_profile_name = ''A'', previous_digital_state = init_digital_state\<rparr>
        (decoded report_cross))) ''cross''
   \<and> active_profile_name
       (on_profile_listbox_select ''B''
         (snd (poll_digital \<lparr>active_profile_name = ''A'', previous_digital_state = init_digital_state\<rparr>
            (decoded report_cross)))) = ''B''
   \<and> fst (poll_digital
       (on_profile_listbox_select ''B''
         (snd (poll_digital \<lparr>active_profile_name = ''A'', previous_digital_state = init_digital_state\<rparr>
            (decoded report_cross))))
       (decoded report_cross)) = None"
  by code_simp

text \<open>
  C1, amended. The detector keeps a single previous state, shared by all profiles: the
  change-set and the stored state do not depend on the selected profile name, and a button
  that was down in the previous snapshot emits no press at the next one, whichever
  profiles were selected for the two snapshots.
\<close>

theorem digital_state_shared_by_profiles:
  assumes "distinct (map fst (buttons d1))"
    and "distinct (map fst (buttons d2))"
    and "map_of (buttons d1) b = Some True"
  shows "fst (poll_digital (on_profile_listbox_select p a) d) =
           fst (poll_digital (on_profile_listbox_select q a) d)
       \<and> previous_digital_state (snd (poll_digital (on_profile_listbox_select p a) d)) =
           previous_digital_state (snd (poll_digital (on_profile_listbox_select q a) d))
       \<and> \<not> emits_press
            (fst (poll_digital
               (on_profile_listbox_select q (snd (poll_digital (on_profile_listbox_select p a) d1)))
               d2)) b"
proof -
  have fst_poll: "\<And>x y. fst (poll_digital x y) = fst (check_digital_changes (previous_digital_state x) y)"
    by (simp add: poll_digital_def split: prod.splits)
  have snd_poll: "\<And>x y. previous_digital_state (snd (poll_digital x y)) =
      \<lparr>ds_buttons = buttons y, ds_dpad = dpad y\<rparr>"
  proof -
    fix x y
    show "previous_digital_state (snd (poll_digital x y)) = \<lparr>ds_buttons = buttons y, ds_dpad = dpad y\<rparr>"
      using check_state [of "previous_digital_state x" y]
      by (cases "check_digital_changes (previous_digital_state x) y") (simp add: poll_digital_def)
  qed
  have sel: "\<And>n x. previous_digital_state (on_profile_listbox_select n x) = previous_digital_state x"
    by (simp add: on_profile_listbox_select_def)
  show ?thesis
    by (simp add: fst_poll snd_poll sel emits_press_check [OF assms(2)] was_pressed_stored assms(3))
qed

theorem digital_state_shared_by_profiles_witness:
  "\<not> emits_press
      (fst (poll_digital
         (on_profile_listbox_select ''B''
            (snd (poll_digital
               (on_profile_listbox_select ''A''
                  \<lparr>active_profile_name = ''Default'', previous_digital_state = init_digital_state\<rparr>)
               (decoded report_cross))))
         (decoded report_cross))) ''cross''"
proof -
  have h1: "distinct (map fst (buttons (decoded report_cross)))"
    by code_simp
  have h3: "map_of (buttons (decoded report_cross)) ''cross'' = Some True"
    by code_simp
  show ?thesis
    using digital_state_shared_by_profiles [OF h1 h1 h3, of "''A''" _ _ "''B''"] by simp
qed

section \<open>Properties of the report decoder\<close>

text \<open>
  What the decoder does with a validated report, by its length: up to 35 bytes it returns
  a snapshot with the touch fields zeroed (and battery 0 up to 30 bytes), from 40 bytes on
  it returns a snapshot whose touch flag is bit 7 of byte 35, and in between it raises.
\<close>

lemma slice_two:
  assumes "j + 2 \<le> length r"
  shows "py_slice r j (j + 2) = [r ! j, r ! Suc j]"
proof -
  have a: "drop j r = r ! j # drop (Suc j) r"
    using assms by (simp add: Cons_nth_drop_Suc)
  have b: "drop (Suc j) r = r ! Suc j # drop (Suc (Suc j)) r"
    using assms by (simp add: Cons_nth_drop_Suc)
  show ?thesis by (simp add: py_slice_def a b)
qed

lemma unpack_h_slice:
  assumes "k = j + 2" and "k \<le> length r"
  shows "\<exists>v. unpack_h (py_slice r j k) = Inr v"
proof -
  have "py_slice r j k = [r ! j, r ! Suc j]"
    using assms slice_two [of j r] by simp
  then show ?thesis by (simp add: unpack_h_def Let_def)
qed

lemma unpack_vec3_ok:
  assumes "i + 6 \<le> length r"
  shows "\<exists>v. unpack_vec3 r i = Inr v"
proof -
  have k1: "i + 2 \<le> length r" and k2: "i + 4 \<le> length r" using assms by simp_all
  have e2: "i + 4 = i + 2 + 2" and e3: "i + 6 = i + 4 + 2" by simp_all
  obtain a where a: "unpack_h (py_slice r i (i + 2)) = Inr a"
    using unpack_h_slice [OF refl k1] by blast
  obtain b where b: "unpack_h (py_slice r (i + 2) (i + 4)) = Inr b"
    using unpack_h_slice [OF e2 k2] by blast
  obtain c where c: "unpack_h (py_slice r (i + 4) (i + 6)) = Inr c"
    using unpack_h_slice [OF e3 assms] by blast
  show ?thesis unfolding unpack_vec3_def a b c bind_res_def by simp
qed

lemma flag_bit7: "flag b 0x80 = bit b 7"
  by (simp add: flag_def bit_iff_and_push_bit_not_eq_0)

lemma unpack_h_bad: "length bs \<noteq> 2 \<Longrightarrow> unpack_h bs = Inl StructError"
  by (cases bs rule: list.exhaust [case_product list.exhaust])
     (auto simp add: unpack_h_def split: list.splits)

lemma length_slice: "length (py_slice r i j) = min (j - i) (length r - i)"
  by (simp add: py_slice_def)

lemma parse_touchpad_short:
  "length r \<le> 35 \<Longrightarrow>
   parse_touchpad r = Inr \<lparr>active = False, touch_id = 0, touch_x = 0, touch_y = 0\<rparr>"
  by (simp add: parse_touchpad_def)

lemma parse_touchpad_gap:
  assumes "36 \<le> length r" and "length r \<le> 39"
  shows "parse_touchpad r = Inl StructError"
proof (cases "length r < 38")
  case True
  then have "unpack_h (py_slice r 36 38) = Inl StructError"
    using assms by (intro unpack_h_bad) (simp add: length_slice)
  then show ?thesis using assms by (simp add: parse_touchpad_def byte_at_def bind_res_def)
next
  case False
  then have ok: "\<exists>v. unpack_h (py_slice r 36 38) = Inr v"
    by (intro unpack_h_slice) simp_all
  have "unpack_h (py_slice r 38 40) = Inl StructError"
    using assms False by (intro unpack_h_bad) (simp add: length_slice)
  then show ?thesis using assms ok
    by (auto simp add: parse_touchpad_def byte_at_def bind_res_def)
qed

lemma parse_touchpad_full:
  assumes "40 \<le> length r"
  shows "\<exists>t. parse_touchpad r = Inr t \<and> active t = bit (r ! 35) 7
           \<and> touch_id t = unat (r ! 35 AND 0x7F)"
proof -
  obtain a where a: "unpack_h (py_slice r 36 38) = Inr a"
    using unpack_h_slice [of 38 36 r] assms by auto
  obtain b where b: "unpack_h (py_slice r 38 40) = Inr b"
    using unpack_h_slice [of 40 38 r] assms by auto
  show ?thesis using assms
    by (simp add: parse_touchpad_def byte_at_def bind_res_def a b flag_bit7)
qed

lemma parse_controller_data_touchpad:
  assumes "25 \<le> length r"
  shows "parse_controller_data r =
           (case parse_touchpad r of Inl e \<Rightarrow> Inl e
            | Inr t \<Rightarrow> Inr ((projr (parse_controller_data r))\<lparr>touchpad := t\<rparr>))
         \<and> (\<forall>t. parse_touchpad r = Inr t \<longrightarrow>
              (\<exists>s. parse_controller_data r = Inr s \<and> touchpad s = t
                   \<and> (length r \<le> 30 \<longrightarrow> battery s = 0)))"
proof -
  obtain g where g: "unpack_vec3 r 13 = Inr g"
    using unpack_vec3_ok [of 13 r] assms by auto
  obtain a where a: "unpack_vec3 r 19 = Inr a"
    using unpack_vec3_ok [of 19 r] assms by auto
  have "\<exists>bat. parse_battery r = Inr bat \<and> (length r \<le> 30 \<longrightarrow> bat = 0)"
    by (auto simp add: parse_battery_def byte_at_def bind_res_def)
  then obtain bat where bat: "parse_battery r = Inr bat" "length r \<le> 30 \<longrightarrow> bat = 0"
    by blast
  show ?thesis using assms
    by (cases "parse_touchpad r")
       (simp_all add: parse_controller_data_def byte_at_def bind_res_def g a bat)
qed

lemma decoder_by_length:
  assumes "25 \<le> length r"
  shows "(length r \<le> 35 \<longrightarrow>
            (\<exists>s. parse_controller_data r = Inr s
                 \<and> touchpad s = \<lparr>active = False, touch_id = 0, touch_x = 0, touch_y = 0\<rparr>
                 \<and> (length r \<le> 30 \<longrightarrow> battery s = 0)))
       \<and> (36 \<le> length r \<and> length r \<le> 39 \<longrightarrow> parse_controller_data r = Inl StructError)
       \<and> (40 \<le> length r \<longrightarrow>
            (\<exists>s. parse_controller_data r = Inr s \<and> active (touchpad s) = bit (r ! 35) 7
                 \<and> touch_id (touchpad s) = unat (r ! 35 AND 0x7F)))"
proof (intro conjI impI)
  assume "length r \<le> 35"
  then show "\<exists>s. parse_controller_data r = Inr s
       \<and> touchpad s = \<lparr>active = False, touch_id = 0, touch_x = 0, touch_y = 0\<rparr>
       \<and> (length r \<le> 30 \<longrightarrow> battery s = 0)"
    using parse_controller_data_touchpad [OF assms] parse_touchpad_short [of r] by blast
next
  assume "36 \<le> length r \<and> length r \<le> 39"
  then have "parse_touchpad r = Inl StructError" using parse_touchpad_gap by blast
  then show "parse_controller_data r = Inl StructError"
    using parse_controller_data_touchpad [OF assms] by simp
next
  assume "40 \<le> length r"
  then obtain t where "parse_touchpad r = Inr t" "active t = bit (r ! 35) 7"
    "touch_id t = unat (r ! 35 AND 0x7F)"
    using parse_touchpad_full by blast
  then show "\<exists>s. parse_controller_data r = Inr s \<and> active (touchpad s) = bit (r ! 35) 7
       \<and> touch_id (touchpad s) = unat (r ! 35 AND 0x7F)"
    using parse_controller_data_touchpad [OF assms] by auto
qed

text \<open>
  C4. A report of 36 bytes passes \<open>validate_report\<close>, and \<open>parse_controller_data\<close> raises
  struct.error on it: the touchpad branch is entered when the report has more than 35
  bytes and then unpacks the slices 36:38 and 38:40, which are empty.
\<close>

theorem validated_report_36_raises:
  "validate_report report_36 \<and> parse_controller_data report_36 = Inl StructError"
  by code_simp

text \<open>
  C5. With bit 7 of byte 35 set, the decoded touch is active: the source computes
  \<open>bool(report[35] & 0x80)\<close>, the flag itself and not its negation. The touch id is the
  low seven bits.
\<close>

theorem touch_active_when_bit7_set:
  "bit (report_touch_bit7 ! 35) 7
   \<and> \<not> isl (parse_controller_data report_touch_bit7)
   \<and> active (touchpad (decoded report_touch_bit7))
   \<and> touch_id (touchpad (decoded report_touch_bit7)) = 0"
  by code_simp

section \<open>Properties of the haptic threshold detector\<close>

lemma last_set_last [simp]:
  "last_rumble_threshold (set_last_rumble_threshold t v tab) t = v"
  by (simp add: last_rumble_threshold_def set_last_rumble_threshold_def)

lemma set_last_settings [simp]:
  "tactile_intensity (set_last_rumble_threshold t v tab) = tactile_intensity tab"
  "tactile_duration (set_last_rumble_threshold t v tab) = tactile_duration tab"
  "has_trigger_callback (set_last_rumble_threshold t v tab) = has_trigger_callback tab"
  by (simp_all add: set_last_rumble_threshold_def)

lemma callback_returns:
  assumes "0 \<le> tactile_intensity tab" and "tactile_intensity tab \<le> 255"
  shows "\<exists>effects. trigger_tactile_feedback tab t = Inr effects"
  using assms
  by (simp add: trigger_tactile_feedback_def set_rumble_simple_def bytes_ok_def Let_def list_all_iff)

text \<open>Every call is made with the trigger's name, and each comes from an upward crossing.\<close>

lemma threshold_loop_calls:
  "\<exists>n. snd (threshold_loop t cur prev ths tab calls) = calls @ replicate n t
       \<and> n \<le> length (crossed_upward prev cur ths)"
proof (induction ths arbitrary: tab calls)
  case Nil
  then show ?case by (simp add: crossed_upward_def)
next
  case (Cons th ths)
  obtain k T where th: "th = (k, T)" by (cases th)
  show ?case
  proof (cases "prev < T \<and> T \<le> cur")
    case up: True
    show ?thesis
    proof (cases "last_rumble_threshold tab t \<noteq> Some k \<and> has_trigger_callback tab")
      case fire: True
      show ?thesis
      proof (cases "trigger_tactile_feedback tab t")
        case (Inl e)
        then have "snd (threshold_loop t cur prev (th # ths) tab calls) = calls @ replicate 1 t"
          using up fire th by simp
        moreover have "1 \<le> length (crossed_upward prev cur (th # ths))"
          using up th by (simp add: crossed_upward_def)
        ultimately show ?thesis by blast
      next
        case (Inr effects)
        obtain n where n: "snd (threshold_loop t cur prev ths
            (set_last_rumble_threshold t (Some k) tab) (calls @ [t])) = (calls @ [t]) @ replicate n t"
          "n \<le> length (crossed_upward prev cur ths)"
          using Cons.IH by blast
        have "snd (threshold_loop t cur prev (th # ths) tab calls) = calls @ replicate (Suc n) t"
          using up fire th Inr n(1) by simp
        moreover have "Suc n \<le> length (crossed_upward prev cur (th # ths))"
          using up th n(2) by (simp add: crossed_upward_def)
        ultimately show ?thesis by blast
      qed
    next
      case False
      then have "\<exists>tab'. threshold_loop t cur prev (th # ths) tab calls =
          threshold_loop t cur prev ths tab' calls"
        using up th by auto
      then obtain tab' where step: "threshold_loop t cur prev (th # ths) tab calls =
          threshold_loop t cur prev ths tab' calls" by blast
      obtain n where n: "snd (threshold_loop t cur prev ths tab' calls) = calls @ replicate n t"
        "n \<le> length (crossed_upward prev cur ths)"
        using Cons.IH by blast
      then have "n \<le> length (crossed_upward prev cur (th # ths))"
        by (simp add: crossed_upward_def)
      then show ?thesis using n(1) step by auto
    qed
  next
    case False
    then have "\<exists>tab'. threshold_loop t cur prev (th # ths) tab calls =
        threshold_loop t cur prev ths tab' calls"
      using th by auto
    then obtain tab' where step: "threshold_loop t cur prev (th # ths) tab calls =
        threshold_loop t cur prev ths tab' calls" by blast
    obtain n where n: "snd (threshold_loop t cur prev ths tab' calls) = calls @ replicate n t"
      "n \<le> length (crossed_upward prev cur ths)"
      using Cons.IH by blast
    then have "n \<le> length (crossed_upward prev cur (th # ths))"
      by (simp add: crossed_upward_def)
    then show ?thesis using n(1) step by auto
  qed
qed

text \<open>With a callback that returns, the loop ends without an exception.\<close>

lemma threshold_loop_no_error:
  assumes "0 \<le> tactile_intensity tab" and "tactile_intensity tab \<le> 255"
  shows "snd (fst (threshold_loop t cur prev ths tab calls)) = None"
  using assms
proof (induction ths arbitrary: tab calls)
  case Nil
  then show ?case by simp
next
  case (Cons th ths)
  obtain k T where th: "th = (k, T)" by (cases th)
  obtain effects where e: "trigger_tactile_feedback tab t = Inr effects"
    using callback_returns [OF Cons.prems] by blast
  show ?case using Cons.IH Cons.prems th e by simp
qed

text \<open>
  Every threshold crossed upwards whose number is not the last-fired one at the start
  gets its own call.
\<close>

lemma threshold_loop_lower:
  assumes "0 \<le> tactile_intensity tab" and "tactile_intensity tab \<le> 255"
    and "has_trigger_callback tab" and "distinct (map fst ths)"
  shows "length calls
           + length (filter (\<lambda>th. last_rumble_threshold tab t \<noteq> Some (fst th))
                       (crossed_upward prev cur ths))
         \<le> length (snd (threshold_loop t cur prev ths tab calls))"
  using assms
proof (induction ths arbitrary: tab calls)
  case Nil
  then show ?case by (simp add: crossed_upward_def)
next
  case (Cons th ths)
  obtain k T where th: "th = (k, T)" by (cases th)
  obtain effects where e: "trigger_tactile_feedback tab t = Inr effects"
    using callback_returns [OF Cons.prems(1,2)] by blast
  from Cons.prems(4) th have d: "distinct (map fst ths)" and nk: "k \<notin> fst ` set ths" by auto
  let ?cnt = "\<lambda>x. length (filter (\<lambda>th. last_rumble_threshold x t \<noteq> Some (fst th))
                       (crossed_upward prev cur ths))"
  show ?case
  proof (cases "prev < T \<and> T \<le> cur")
    case up: True
    show ?thesis
    proof (cases "last_rumble_threshold tab t = Some k")
      case True
      have "length calls + ?cnt tab \<le> length (snd (threshold_loop t cur prev ths tab calls))"
        using Cons.IH [OF Cons.prems(1,2,3) d] .
      then show ?thesis using up True th by (simp add: crossed_upward_def)
    next
      case False
      let ?tab1 = "set_last_rumble_threshold t (Some k) tab"
      have "length (calls @ [t]) + ?cnt ?tab1
              \<le> length (snd (threshold_loop t cur prev ths ?tab1 (calls @ [t])))"
        using Cons.IH [of ?tab1 "calls @ [t]"] Cons.prems(1,2,3) d by simp
      moreover have "?cnt tab \<le> ?cnt ?tab1"
      proof -
        have "filter (\<lambda>th. last_rumble_threshold ?tab1 t \<noteq> Some (fst th))
                (crossed_upward prev cur ths) = crossed_upward prev cur ths"
        proof -
          have ne: "\<And>x. x \<in> set ths \<Longrightarrow> k \<noteq> fst x" using nk by auto
          have "filter (\<lambda>x. prev < snd x \<and> snd x \<le> cur \<and> k \<noteq> fst x) ths =
                filter (\<lambda>th. prev < snd th \<and> snd th \<le> cur) ths"
            by (rule filter_cong) (use ne in auto)
          then show ?thesis by (simp add: crossed_upward_def)
        qed
        then have "?cnt ?tab1 = length (crossed_upward prev cur ths)" by simp
        moreover have "?cnt tab \<le> length (crossed_upward prev cur ths)" by simp
        ultimately show ?thesis by simp
      qed
      ultimately show ?thesis using up False th e Cons.prems(3)
        by (simp add: crossed_upward_def)
    qed
  next
    case noup: False
    show ?thesis
    proof (cases "cur < T \<and> T \<le> prev")
      case True
      let ?tab1 = "set_last_rumble_threshold t None tab"
      have "length calls + ?cnt ?tab1 \<le> length (snd (threshold_loop t cur prev ths ?tab1 calls))"
        using Cons.IH [of ?tab1 calls] Cons.prems(1,2,3) d by simp
      moreover have "crossed_upward prev cur ths = []"
        using True by (auto simp add: crossed_upward_def filter_empty_conv)
      moreover have "crossed_upward prev cur (th # ths) = crossed_upward prev cur ths"
        using noup th by (simp add: crossed_upward_def)
      moreover have "threshold_loop t cur prev (th # ths) tab calls =
          threshold_loop t cur prev ths ?tab1 calls"
        using noup True th by auto
      ultimately show ?thesis by simp
    next
      case False
      have "length calls + ?cnt tab \<le> length (snd (threshold_loop t cur prev ths tab calls))"
        using Cons.IH [OF Cons.prems(1,2,3) d] .
      moreover have "crossed_upward prev cur (th # ths) = crossed_upward prev cur ths"
        using noup th by (simp add: crossed_upward_def)
      moreover have "threshold_loop t cur prev (th # ths) tab calls =
          threshold_loop t cur prev ths tab calls"
        using noup False th by auto
      ultimately show ?thesis by simp
    qed
  qed
qed

text \<open>After a step that goes up, the last threshold crossed is the one recorded.\<close>

lemma threshold_loop_last:
  assumes "0 \<le> tactile_intensity tab" and "tactile_intensity tab \<le> 255"
    and "prev < cur"
  shows "last_rumble_threshold (fst (fst (threshold_loop t cur prev ths tab calls))) t =
           (if crossed_upward prev cur ths = [] then last_rumble_threshold tab t
            else Some (fst (last (crossed_upward prev cur ths))))"
  using assms
proof (induction ths arbitrary: tab calls)
  case Nil
  then show ?case by (simp add: crossed_upward_def)
next
  case (Cons th ths)
  obtain k T where th: "th = (k, T)" by (cases th)
  obtain effects where e: "trigger_tactile_feedback tab t = Inr effects"
    using callback_returns [OF Cons.prems(1,2)] by blast
  show ?case
  proof (cases "prev < T \<and> T \<le> cur")
    case up: True
    then have cr: "crossed_upward prev cur (th # ths) = (k, T) # crossed_upward prev cur ths"
      using th by (simp add: crossed_upward_def)
    show ?thesis
    proof (cases "last_rumble_threshold tab t = Some k")
      case True
      then have "threshold_loop t cur prev (th # ths) tab calls =
          threshold_loop t cur prev ths tab calls"
        using up th by simp
      then show ?thesis
        using Cons.IH [OF Cons.prems, of calls] True cr by simp
    next
      case False
      let ?tab1 = "set_last_rumble_threshold t (Some k) tab"
      have "\<exists>calls'. threshold_loop t cur prev (th # ths) tab calls =
          threshold_loop t cur prev ths ?tab1 calls'"
        using up th False e by (cases "has_trigger_callback tab") auto
      then obtain calls' where step: "threshold_loop t cur prev (th # ths) tab calls =
          threshold_loop t cur prev ths ?tab1 calls'" by blast
      have "last_rumble_threshold (fst (fst (threshold_loop t cur prev ths ?tab1 calls'))) t =
           (if crossed_upward prev cur ths = [] then last_rumble_threshold ?tab1 t
            else Some (fst (last (crossed_upward prev cur ths))))"
        using Cons.IH [of ?tab1 calls'] Cons.prems by simp
      then show ?thesis using step cr by simp
    qed
  next
    case False
    then have "threshold_loop t cur prev (th # ths) tab calls =
        threshold_loop t cur prev ths tab calls"
      using th Cons.prems(3) by auto
    moreover have "crossed_upward prev cur (th # ths) = crossed_upward prev cur ths"
      using False th by (simp add: crossed_upward_def)
    ultimately show ?thesis using Cons.IH [OF Cons.prems, of calls] by simp
  qed
qed

lemma enabled_thresholds_distinct: "distinct (map fst (enabled_thresholds tab))"
  by (simp add: enabled_thresholds_def)

text \<open>
  C2, as the claim states it, fails: with threshold 2 enabled at 128 and no last-fired
  threshold, the step from 130 down to 120 crosses 128 downwards and fires nothing.
\<close>

theorem downward_crossing_counterexample:
  "threshold2_enabled (init_rumble_tab\<lparr>tactile_enabled := True\<rparr>)
   \<and> threshold2_value (init_rumble_tab\<lparr>tactile_enabled := True\<rparr>) = 128
   \<and> (130::int) > 128 \<and> (120::int) \<le> 128
   \<and> l2_last_rumble_threshold (init_rumble_tab\<lparr>tactile_enabled := True\<rparr>) = None
   \<and> snd (check_threshold_crossing (init_rumble_tab\<lparr>tactile_enabled := True\<rparr>) ''l2'' 120 130) = []"
  by code_simp

text \<open>
  C2, amended. With the callback registered and the intensity within 0..255, one call of
  the detector for a trigger and a pair \<open>(prev, cur)\<close> ends without an exception and
  detects upward crossings only: every request is for that trigger, there is at most one
  request per enabled threshold crossed upwards (\<open>prev < T \<le> cur\<close>), and a step that does
  not go up fires nothing. Every enabled threshold crossed upwards whose number is not the
  trigger's last-fired threshold fires a request of its own. After a call in which
  thresholds were crossed upwards, the last of them is the trigger's last-fired
  threshold. Whether an upward crossing of the last-fired threshold itself fires, and
  what a downward crossing does to the last-fired threshold, is not stated here.
\<close>

theorem threshold_crossing_detector:
  assumes "has_trigger_callback tab"
    and "0 \<le> tactile_intensity tab" and "tactile_intensity tab \<le> 255"
  shows "snd (fst (check_threshold_crossing tab trigger cur prev)) = None
       \<and> set (snd (check_threshold_crossing tab trigger cur prev)) \<subseteq> {trigger}
       \<and> length (snd (check_threshold_crossing tab trigger cur prev))
            \<le> length (crossed_upward prev cur (enabled_thresholds tab))
       \<and> length (filter (\<lambda>th. last_rumble_threshold tab trigger \<noteq> Some (fst th))
                    (crossed_upward prev cur (enabled_thresholds tab)))
            \<le> length (snd (check_threshold_crossing tab trigger cur prev))
       \<and> ((k, T) \<in> set (enabled_thresholds tab) \<and> prev < T \<and> T \<le> cur
            \<and> last_rumble_threshold tab trigger \<noteq> Some k \<longrightarrow>
            trigger \<in> set (snd (check_threshold_crossing tab trigger cur prev)))
       \<and> (cur \<le> prev \<longrightarrow> snd (check_threshold_crossing tab trigger cur prev) = [])
       \<and> (crossed_upward prev cur (enabled_thresholds tab) \<noteq> [] \<longrightarrow>
            last_rumble_threshold (fst (fst (check_threshold_crossing tab trigger cur prev))) trigger =
              Some (fst (last (crossed_upward prev cur (enabled_thresholds tab)))))"
proof -
  let ?ths = "enabled_thresholds tab"
  let ?calls = "snd (check_threshold_crossing tab trigger cur prev)"
  obtain n where n: "?calls = replicate n trigger" "n \<le> length (crossed_upward prev cur ?ths)"
    using threshold_loop_calls [of trigger cur prev ?ths tab "[]"]
    by (auto simp add: check_threshold_crossing_def)
  have noerr: "snd (fst (check_threshold_crossing tab trigger cur prev)) = None"
    using threshold_loop_no_error [OF assms(2,3)] by (simp add: check_threshold_crossing_def)
  have sub: "set ?calls \<subseteq> {trigger}" using n(1) by auto
  have upper: "length ?calls \<le> length (crossed_upward prev cur ?ths)" using n by simp
  have lower: "length (filter (\<lambda>th. last_rumble_threshold tab trigger \<noteq> Some (fst th))
                    (crossed_upward prev cur ?ths)) \<le> length ?calls"
    using threshold_loop_lower [OF assms(2,3,1) enabled_thresholds_distinct, of "[]" trigger prev cur]
    by (simp add: check_threshold_crossing_def)
  have mem: "(k, T) \<in> set ?ths \<and> prev < T \<and> T \<le> cur
            \<and> last_rumble_threshold tab trigger \<noteq> Some k \<longrightarrow> trigger \<in> set ?calls"
  proof
    assume a: "(k, T) \<in> set ?ths \<and> prev < T \<and> T \<le> cur
            \<and> last_rumble_threshold tab trigger \<noteq> Some k"
    then have "(k, T) \<in> set (filter (\<lambda>th. last_rumble_threshold tab trigger \<noteq> Some (fst th))
                    (crossed_upward prev cur ?ths))"
      by (simp add: crossed_upward_def)
    then have "filter (\<lambda>th. last_rumble_threshold tab trigger \<noteq> Some (fst th))
                    (crossed_upward prev cur ?ths) \<noteq> []"
      by (metis empty_iff empty_set)
    then have "0 < n" using lower n(1) by (cases n) simp_all
    then show "trigger \<in> set ?calls" using n(1) by simp
  qed
  have flat: "cur \<le> prev \<longrightarrow> ?calls = []"
  proof
    assume "cur \<le> prev"
    then have "crossed_upward prev cur ?ths = []"
      by (auto simp add: crossed_upward_def filter_empty_conv)
    then show "?calls = []" using upper by simp
  qed
  have rec: "crossed_upward prev cur ?ths \<noteq> [] \<longrightarrow>
            last_rumble_threshold (fst (fst (check_threshold_crossing tab trigger cur prev))) trigger =
              Some (fst (last (crossed_upward prev cur ?ths)))"
  proof
    assume ne: "crossed_upward prev cur ?ths \<noteq> []"
    then obtain th where "th \<in> set ?ths" "prev < snd th" "snd th \<le> cur"
      by (auto simp add: crossed_upward_def filter_empty_conv)
    then have "prev < cur" by simp
    then show "last_rumble_threshold (fst (fst (check_threshold_crossing tab trigger cur prev))) trigger =
              Some (fst (last (crossed_upward prev cur ?ths)))"
      using threshold_loop_last [OF assms(2,3), of prev cur trigger ?ths "[]"] ne
      by (simp add: check_threshold_crossing_def)
  qed
  show ?thesis using noerr sub upper lower mem flat rec by blast
qed

theorem threshold_crossing_detector_witness:
  "''l2'' \<in> set (snd (check_threshold_crossing init_rumble_tab ''l2'' 130 120))
   \<and> length (snd (check_threshold_crossing init_rumble_tab ''l2'' 130 120)) \<le> 1
   \<and> snd (fst (check_threshold_crossing init_rumble_tab ''l2'' 130 120)) = None
   \<and> last_rumble_threshold (fst (fst (check_threshold_crossing init_rumble_tab ''l2'' 130 120))) ''l2''
       = Some 2
   \<and> snd (check_threshold_crossing init_rumble_tab ''l2'' 120 130) = []"
proof -
  have h1: "has_trigger_callback init_rumble_tab"
    and h2: "0 \<le> tactile_intensity init_rumble_tab"
    and h3: "tactile_intensity init_rumble_tab \<le> 255"
    by (simp_all add: init_rumble_tab_def)
  have e: "(2, 128) \<in> set (enabled_thresholds init_rumble_tab)"
    by (simp add: enabled_thresholds_def init_rumble_tab_def)
  have c: "crossed_upward 120 130 (enabled_thresholds init_rumble_tab) = [(2, 128)]"
    by (simp add: crossed_upward_def enabled_thresholds_def init_rumble_tab_def)
  have l: "last_rumble_threshold init_rumble_tab ''l2'' \<noteq> Some 2"
    by (simp add: last_rumble_threshold_def init_rumble_tab_def)
  have up: "(120::int) < 128 \<and> (128::int) \<le> 130" and dn: "(120::int) \<le> 130"
    by simp_all
  show ?thesis
    using threshold_crossing_detector [OF h1 h2 h3, where trigger = "''l2''" and prev = 120
          and cur = 130 and k = 2 and T = 128]
      threshold_crossing_detector [OF h1 h2 h3, where trigger = "''l2''" and prev = 130
          and cur = 120 and k = 2 and T = 128]
      e c l up dn
    by simp
qed

text \<open>
  C3. With tactile feedback enabled and the default thresholds, L2 rising from 0 to 100
  crosses threshold 1. The rumble tab calls the callback with the name \<open>'l2'\<close>, the main
  window compares it with \<open>"L2"\<close>, and the report it writes drives the weak (right) motor
  at the configured intensity and the strong (left) motor at 0.
\<close>

theorem l2_crossing_drives_weak_motor:
  "snd (check_tactile_feedback (init_rumble_tab\<lparr>tactile_enabled := True\<rparr>) 100 0) = [''l2'']
   \<and> snd (tactile_effects (init_rumble_tab\<lparr>tactile_enabled := True\<rparr>) 100 0) =
       [set_rumble_simple 0 255, After 50]
   \<and> strong_motor (set_rumble_simple 0 255) = Some 0
   \<and> weak_motor (set_rumble_simple 0 255) = Some 255"
  by code_simp

section \<open>Properties of the orientation estimator\<close>

text \<open>
  C6. In one update with a non-zero sensitivity: an axis whose lock is set keeps its value;
  an unlocked yaw becomes \<open>yaw + radians(gyro_y / sensitivity) * dt\<close>, with no accelerometer
  term and no damping; an unlocked pitch is filtered with the rate of the z gyro channel
  and an unlocked roll with the rate of the x gyro channel, and each is multiplied by the
  damping factor exactly when the absolute value of its own rate is below 0.01.
\<close>

theorem fusion_update_axes:
  "gyro_sensitivity tab \<noteq> 0 \<longrightarrow>
     fst (update_orientation_with_fusion tab t gx gy gz ax ay az) = None
     \<and> (lock_roll tab \<longrightarrow>
          roll (snd (update_orientation_with_fusion tab t gx gy gz ax ay az)) = roll tab)
     \<and> (lock_pitch tab \<longrightarrow>
          pitch (snd (update_orientation_with_fusion tab t gx gy gz ax ay az)) = pitch tab)
     \<and> (lock_yaw tab \<longrightarrow>
          yaw (snd (update_orientation_with_fusion tab t gx gy gz ax ay az)) = yaw tab)
     \<and> (\<not> lock_yaw tab \<longrightarrow>
          yaw (snd (update_orientation_with_fusion tab t gx gy gz ax ay az)) =
            yaw tab + radians (real_of_int gy / gyro_sensitivity tab) * (t - last_time tab))
     \<and> (\<not> lock_pitch tab \<longrightarrow>
          pitch (snd (update_orientation_with_fusion tab t gx gy gz ax ay az)) =
            (alpha tab * (pitch tab + radians (real_of_int gz / gyro_sensitivity tab) * (t - last_time tab))
             + (1 - alpha tab) * arctan2 (real_of_int (- ax)) (sqrt (real_of_int (ay ^ 2 + az ^ 2))))
            * (if \<bar>radians (real_of_int gz / gyro_sensitivity tab)\<bar> < 0.01
               then damping_factor tab else 1))
     \<and> (\<not> lock_roll tab \<longrightarrow>
          roll (snd (update_orientation_with_fusion tab t gx gy gz ax ay az)) =
            (alpha tab * (roll tab + radians (real_of_int gx / gyro_sensitivity tab) * (t - last_time tab))
             + (1 - alpha tab) * arctan2 (real_of_int ay) (real_of_int az))
            * (if \<bar>radians (real_of_int gx / gyro_sensitivity tab)\<bar> < 0.01
               then damping_factor tab else 1))"
proof (cases "gyro_sensitivity tab = 0")
  case True
  then show ?thesis by simp
next
  case False
  show ?thesis
    using False
    by (cases "lock_roll tab"; cases "lock_pitch tab"; cases "lock_yaw tab")
       (simp_all add: update_orientation_with_fusion_def Let_def)
qed

theorem fusion_update_axes_witness:
  "yaw (snd (update_orientation_with_fusion (init_viz_tab 0) 1 0 500 0 0 0 1000)) = pi / 180
   \<and> roll (snd (update_orientation_with_fusion (init_viz_tab 0) 1 0 500 0 0 0 1000)) = 0
   \<and> pitch (snd (update_orientation_with_fusion (init_viz_tab 0) 1 0 500 0 0 0 1000)) = 0
   \<and> yaw (snd (update_orientation_with_fusion
         ((init_viz_tab 0)\<lparr>yaw := 1, pitch := 2, roll := 3,
            lock_roll := True, lock_pitch := True, lock_yaw := True\<rparr>) 1 700 500 900 10 20 1000)) = 1
   \<and> pitch (snd (update_orientation_with_fusion
         ((init_viz_tab 0)\<lparr>yaw := 1, pitch := 2, roll := 3,
            lock_roll := True, lock_pitch := True, lock_yaw := True\<rparr>) 1 700 500 900 10 20 1000)) = 2
   \<and> roll (snd (update_orientation_with_fusion
         ((init_viz_tab 0)\<lparr>yaw := 1, pitch := 2, roll := 3,
            lock_roll := True, lock_pitch := True, lock_yaw := True\<rparr>) 1 700 500 900 10 20 1000)) = 3"
proof -
  have s: "gyro_sensitivity (init_viz_tab 0) \<noteq> 0"
    by (simp add: init_viz_tab_def)
  have u: "\<not> lock_roll (init_viz_tab 0) \<and> \<not> lock_pitch (init_viz_tab 0) \<and> \<not> lock_yaw (init_viz_tab 0)"
    by (simp add: init_viz_tab_def)
  have a: "arctan2 0 1000 = 0" "arctan2 0 (sqrt 1000000) = 0"
    by (simp_all add: arctan2_def)
  show ?thesis
    using fusion_update_axes [of "init_viz_tab 0" 1 0 500 0 0 0 1000]
      fusion_update_axes [of "(init_viz_tab 0)\<lparr>yaw := 1, pitch := 2, roll := 3,
            lock_roll := True, lock_pitch := True, lock_yaw := True\<rparr>" 1 700 500 900 10 20 1000]
      s u a
    by (simp add: init_viz_tab_def radians_def)
qed

text \<open>
  C8. Capturing the offset stores the current angles and displays zero on every axis; a
  second capture right after it displays zero again and changes nothing; neither capture
  changes roll, pitch or yaw.
\<close>

theorem offset_capture_idempotent:
  "snd (set_neutral_orientation tab) = (0, 0, 0)
   \<and> snd (set_neutral_orientation (fst (set_neutral_orientation tab))) = (0, 0, 0)
   \<and> fst (set_neutral_orientation (fst (set_neutral_orientation tab))) =
       fst (set_neutral_orientation tab)
   \<and> roll (fst (set_neutral_orientation tab)) = roll tab
   \<and> pitch (fst (set_neutral_orientation tab)) = pitch tab
   \<and> yaw (fst (set_neutral_orientation tab)) = yaw tab
   \<and> update_gyro_triangle (fst (set_neutral_orientation tab)) (roll tab) (pitch tab) (yaw tab) =
       (0, 0, 0)"
  by (simp add: set_neutral_orientation_def update_gyro_triangle_def Let_def)

section \<open>Properties of the inbound command channel\<close>

text \<open>
  C9. For every result of the receive call and whatever the two library calls do,
  \<open>check_ipc_socket\<close> returns without an exception. The plain text \<open>toggle_window\<close> that is
  not JSON invokes the registered toggle-window callback; a JSON object whose command is
  \<open>set_lightbar\<close> invokes the registered lightbar callback with its r, g and b values; and
  a datagram of neither kind invokes no callback.
\<close>

theorem ipc_commands_dispatch:
  "\<not> isl (check_ipc_socket decode loads m rcv)
   \<and> (decode data = Some ''toggle_window'' \<and> loads ''toggle_window'' = None
        \<and> toggle_window_callback m \<longrightarrow>
        check_ipc_socket decode loads m (Datagram data) = Inr ([ToggleWindow], None))
   \<and> (decode data = Some msg \<and> loads msg = Some (JObj kvs)
        \<and> map_of kvs ''command'' = Some (JStr ''set_lightbar'')
        \<and> map_of kvs ''r'' = Some r \<and> map_of kvs ''g'' = Some g \<and> map_of kvs ''b'' = Some b
        \<and> lightbar_callback m \<longrightarrow>
        check_ipc_socket decode loads m (Datagram data) = Inr ([SetLightbar r g b], None))
   \<and> (\<not> (\<exists>d. rcv = Datagram d \<and> decode d = Some ''toggle_window''
              \<and> loads ''toggle_window'' = None)
        \<and> \<not> (\<exists>d s c. rcv = Datagram d \<and> decode d = Some s \<and> loads s = Some (JObj c)
              \<and> map_of c ''command'' = Some (JStr ''set_lightbar'')) \<longrightarrow>
        (\<exists>logged. check_ipc_socket decode loads m rcv = Inr ([], logged)))"
proof -
  have total: "\<not> isl (check_ipc_socket decode loads m rcv)"
    by (simp add: check_ipc_socket_def split: sum.splits ipc_exn.splits)
  have toggle: "decode data = Some ''toggle_window'' \<and> loads ''toggle_window'' = None
        \<and> toggle_window_callback m \<longrightarrow>
        check_ipc_socket decode loads m (Datagram data) = Inr ([ToggleWindow], None)"
    by (simp add: check_ipc_socket_def ipc_body_def)
  have light: "decode data = Some msg \<and> loads msg = Some (JObj kvs)
        \<and> map_of kvs ''command'' = Some (JStr ''set_lightbar'')
        \<and> map_of kvs ''r'' = Some r \<and> map_of kvs ''g'' = Some g \<and> map_of kvs ''b'' = Some b
        \<and> lightbar_callback m \<longrightarrow>
        check_ipc_socket decode loads m (Datagram data) = Inr ([SetLightbar r g b], None)"
    by (simp add: check_ipc_socket_def ipc_body_def dict_get_def)
  have other: "\<not> (\<exists>d. rcv = Datagram d \<and> decode d = Some ''toggle_window''
              \<and> loads ''toggle_window'' = None)
        \<and> \<not> (\<exists>d s c. rcv = Datagram d \<and> decode d = Some s \<and> loads s = Some (JObj c)
              \<and> map_of c ''command'' = Some (JStr ''set_lightbar'')) \<longrightarrow>
        (\<exists>logged. check_ipc_socket decode loads m rcv = Inr ([], logged))"
    by (auto simp add: check_ipc_socket_def ipc_body_def
        split: recv_result.splits option.splits json.splits)
  show ?thesis using total toggle light other by blast
qed

theorem ipc_commands_dispatch_witness:
  "check_ipc_socket ascii_decode example_loads
      \<lparr>toggle_window_callback = True, lightbar_callback = True\<rparr>
      (Datagram (ascii_encode ''toggle_window'')) = Inr ([ToggleWindow], None)
   \<and> check_ipc_socket ascii_decode example_loads
      \<lparr>toggle_window_callback = True, lightbar_callback = True\<rparr>
      (Datagram (ascii_encode lightbar_text)) =
        Inr ([SetLightbar (JInt 255) (JInt 0) (JInt 10)], None)
   \<and> (\<exists>logged. check_ipc_socket ascii_decode example_loads
      \<lparr>toggle_window_callback = True, lightbar_callback = True\<rparr>
      (Datagram (ascii_encode ''hello'')) = Inr ([], logged))"
proof -
  let ?m = "\<lparr>toggle_window_callback = True, lightbar_callback = True\<rparr>"
  have d1: "ascii_decode (ascii_encode ''toggle_window'') = Some ''toggle_window''"
    by code_simp
  have l1: "example_loads ''toggle_window'' = None"
    by code_simp
  have d2: "ascii_decode (ascii_encode lightbar_text) = Some lightbar_text"
    by code_simp
  have l2: "example_loads lightbar_text =
      Some (JObj [(''command'', JStr ''set_lightbar''), (''r'', JInt 255), (''g'', JInt 0),
                  (''b'', JInt 10)])"
    by (simp add: example_loads_def)
  have d3: "ascii_decode (ascii_encode ''hello'') = Some ''hello''"
    by code_simp
  have l3: "example_loads ''hello'' = None"
    by code_simp
  have n1: "\<not> (\<exists>d. Datagram (ascii_encode ''hello'') = Datagram d
              \<and> ascii_decode d = Some ''toggle_window'' \<and> example_loads ''toggle_window'' = None)"
    using d3 by auto
  have n2: "\<not> (\<exists>d s c. Datagram (ascii_encode ''hello'') = Datagram d \<and> ascii_decode d = Some s
              \<and> example_loads s = Some (JObj c)
              \<and> map_of c ''command'' = Some (JStr ''set_lightbar''))"
    using d3 l3 by auto
  show ?thesis
    using ipc_commands_dispatch [of ascii_decode example_loads ?m
          "Datagram (ascii_encode ''hello'')" "ascii_encode ''toggle_window''"]
      ipc_commands_dispatch [of ascii_decode example_loads ?m
          "Datagram (ascii_encode ''hello'')" "ascii_encode lightbar_text" lightbar_text
          "[(''command'', JStr ''set_lightbar''), (''r'', JInt 255), (''g'', JInt 0), (''b'', JInt 10)]"
          "JInt 255" "JInt 0" "JInt 10"]
      d1 l1 d2 l2 n1 n2
    by simp
qed

end
